theory Spec2Isabelle
  imports Complex_Main
begin

section \<open>The non-linear timeline scale of MotionBridge\<close>

text \<open>
  The handoff view (\<open>createVisualTimeScale\<close>) and the HTML export of \<open>App.tsx\<close>
  map real milliseconds to a percentage of the drawn axis, so that a span in which no
  property animates is never drawn wider than 60 visual units.

  The code is embedded three times. First over \<open>real\<close>: the arithmetic is exact,
  and a division whose divisor is zero, which in JavaScript yields \<open>Infinity\<close> or
  \<open>NaN\<close> and never a finite number, is the error value \<open>NonFinite\<close>. Reading a
  field of an array element that does not exist raises in JavaScript; it is the error
  value \<open>TypeError\<close>. This embedding carries the properties of the table, of the
  examples and of the absence of zero divisors. Second over \<open>jsnum\<close>, the finite
  numbers with \<open>Infinity\<close>, \<open>-Infinity\<close> and \<open>NaN\<close>, where a sum beyond
  \<open>Number.MAX_VALUE\<close> overflows: it carries the properties that an overflow breaks.
  Third with the objects of the code in a heap that is passed along: it carries the
  independence of the result from whatever else the heap holds.
\<close>

subsection \<open>Data model (types.ts)\<close>

datatype PropertyType = Opacity | Scale | X | Y | Rotate | Json | Video | Custom

record AnimatedProperty =
  prop_id :: string
  prop_type :: PropertyType
  customName :: "string option"
  from_value :: real
  to_value :: real
  assetName :: "string option"
  note_text :: "string option"
  delay :: real
  duration :: real
  bezier :: "real \<times> real \<times> real \<times> real"

record AnimationTrack =
  track_id :: string
  track_name :: string
  properties :: "AnimatedProperty list"

record AnimationGroup =
  group_id :: string
  group_name :: string
  tracks :: "AnimationTrack list"

text \<open>The entries of \<open>visualMap\<close>: \<open>{ real, visual }\<close>.\<close>

record VisualMapping =
  real' :: real
  visual :: real

text \<open>What \<open>createVisualTimeScale\<close> returns: \<open>{ getPercent, totalDuration }\<close>.\<close>

datatype js_error = NonFinite | TypeError

record VisualTimeScale =
  getPercent :: "real \<Rightarrow> js_error + real"
  totalDuration :: real

subsection \<open>The JavaScript primitives the code uses\<close>

text \<open>
  A \<open>Set<number>\<close> keeps its members in insertion order and ignores a value it
  already holds; \<open>Array.from\<close> reads them in that order.
\<close>

definition set_add :: "real \<Rightarrow> real list \<Rightarrow> real list" where
  "set_add x s = (if x \<in> set s then s else s @ [x])"

text \<open>\<open>findIndex\<close>: the first index whose element satisfies the test; \<open>None\<close> is \<open>-1\<close>.\<close>

fun findIndex :: "('a \<Rightarrow> bool) \<Rightarrow> 'a list \<Rightarrow> nat option" where
  "findIndex P [] = None"
| "findIndex P (x # xs) =
     (if P x then Some 0
      else (case findIndex P xs of None \<Rightarrow> None | Some i \<Rightarrow> Some (Suc i)))"

definition js_div :: "real \<Rightarrow> real \<Rightarrow> js_error + real" where
  "js_div a b = (if b = 0 then Inl NonFinite else Inr (a / b))"

text \<open>\<open>arr[i]\<close> followed by a field read: a missing element raises.\<close>

definition element_at :: "'a list \<Rightarrow> nat \<Rightarrow> js_error + 'a" where
  "element_at xs i = (if i < length xs then Inr (xs ! i) else Inl TypeError)"

subsection \<open>createVisualTimeScale (the handoff view)\<close>

definition MAX_EMPTY_GAP_VISUAL :: real where
  "MAX_EMPTY_GAP_VISUAL = 60"

text \<open>\<open>tracks.flatMap(t => t.properties)\<close>\<close>

definition allProps :: "AnimationTrack list \<Rightarrow> AnimatedProperty list" where
  "allProps trks = concat (map properties trks)"

text \<open>
  The set seeded with 0, to which \<open>forEach\<close> adds \<open>p.delay\<close> and then
  \<open>p.delay + p.duration\<close> for every property in turn.
\<close>

definition timePoints :: "AnimatedProperty list \<Rightarrow> real list" where
  "timePoints ps =
     fold (\<lambda>p s. set_add (delay p + duration p) (set_add (delay p) s)) ps [0]"

text \<open>\<open>Array.from(timePoints).sort((a, b) => a - b)\<close>\<close>

definition sortedPoints :: "AnimatedProperty list \<Rightarrow> real list" where
  "sortedPoints ps = sort (timePoints ps)"

text \<open>\<open>sortedPoints[sortedPoints.length - 1] || 0\<close>: 0 replaces a missing or zero value.\<close>

definition maxRealDuration :: "AnimatedProperty list \<Rightarrow> real" where
  "maxRealDuration ps =
     (let sp = sortedPoints ps in
      if sp = [] then 0 else if last sp = 0 then 0 else last sp)"

text \<open>\<open>allProps.some(p => mid >= p.delay && mid <= p.delay + p.duration)\<close>\<close>

definition isActive :: "AnimatedProperty list \<Rightarrow> real \<Rightarrow> bool" where
  "isActive ps mid = list_ex (\<lambda>p. mid \<ge> delay p \<and> mid \<le> delay p + duration p) ps"

text \<open>
  The \<open>for\<close> loop: \<open>for (let i = 0; i < sortedPoints.length - 1; i++)\<close>. Its state
  is \<open>currentVisual\<close> and \<open>visualMap\<close>; every round reads \<open>sortedPoints[i]\<close>
  and \<open>sortedPoints[i + 1]\<close>, both inside the array by the loop condition, adds the
  visual length of the segment between them and pushes one entry.
\<close>

function for_loop ::
  "AnimatedProperty list \<Rightarrow> real list \<Rightarrow> nat \<Rightarrow> real \<Rightarrow> VisualMapping list
     \<Rightarrow> real \<times> VisualMapping list" where
  "for_loop ps sp i currentVisual visualMap =
     (if int i < int (length sp) - 1 then
        (let tStart = sp ! i;
             tEnd = sp ! (i + 1);
             mid = (tStart + tEnd) / 2;
             realDuration = tEnd - tStart;
             visualDuration =
               (if isActive ps mid then realDuration
                else min realDuration MAX_EMPTY_GAP_VISUAL);
             currentVisual' = currentVisual + visualDuration
         in for_loop ps sp (i + 1) currentVisual'
              (visualMap @ [\<lparr>real' = tEnd, visual = currentVisual'\<rparr>]))
      else (currentVisual, visualMap))"
  by pat_completeness auto
termination
  by (relation "measure (\<lambda>(ps, sp, i, cv, vm). length sp - i)") auto

declare for_loop.simps [simp del]

text \<open>The loop started as the code starts it: \<open>i = 0\<close>, \<open>currentVisual = 0\<close>, \<open>[{ real: 0, visual: 0 }]\<close>.\<close>

definition build_map :: "AnimatedProperty list \<Rightarrow> real \<times> VisualMapping list" where
  "build_map ps = for_loop ps (sortedPoints ps) 0 0 [\<lparr>real' = 0, visual = 0\<rparr>]"

definition visualMap_of :: "AnimatedProperty list \<Rightarrow> VisualMapping list" where
  "visualMap_of ps = snd (build_map ps)"

definition currentVisual_of :: "AnimatedProperty list \<Rightarrow> real" where
  "currentVisual_of ps = fst (build_map ps)"

text \<open>\<open>currentVisual || 100\<close>\<close>

definition totalVisualDuration :: "AnimatedProperty list \<Rightarrow> real" where
  "totalVisualDuration ps = (if currentVisual_of ps = 0 then 100 else currentVisual_of ps)"

text \<open>The closure \<open>getPercent\<close>, over the table and the total it captures.\<close>

definition getPercent_in :: "VisualMapping list \<Rightarrow> real \<Rightarrow> real \<Rightarrow> js_error + real" where
  "getPercent_in vm totalVis realTime =
     (case findIndex (\<lambda>m. real' m \<ge> realTime) vm of
        None \<Rightarrow> Inr 100
      | Some segmentIndex \<Rightarrow>
          if segmentIndex = 0 then Inr 0
          else
            (case element_at vm segmentIndex of
               Inl e \<Rightarrow> Inl e
             | Inr endPoint \<Rightarrow>
                 (case element_at vm (segmentIndex - 1) of
                    Inl e \<Rightarrow> Inl e
                  | Inr startPoint \<Rightarrow>
                      (let segmentRealDuration = real' endPoint - real' startPoint;
                           segmentVisualDuration = visual endPoint - visual startPoint
                       in case js_div (realTime - real' startPoint) segmentRealDuration of
                            Inl e \<Rightarrow> Inl e
                          | Inr progressInSegment \<Rightarrow>
                              (let visualTime =
                                     visual startPoint
                                       + progressInSegment * segmentVisualDuration
                               in case js_div visualTime totalVis of
                                    Inl e \<Rightarrow> Inl e
                                  | Inr q \<Rightarrow> Inr (q * 100))))))"

definition createVisualTimeScale :: "AnimationTrack list \<Rightarrow> VisualTimeScale" where
  "createVisualTimeScale trks =
     (let ps = allProps trks in
      \<lparr>getPercent = getPercent_in (visualMap_of ps) (totalVisualDuration ps),
       totalDuration = maxRealDuration ps\<rparr>)"

text \<open>Inputs for the examples: a property with the given start and length, on one track.\<close>

definition timed :: "real \<Rightarrow> real \<Rightarrow> AnimatedProperty" where
  "timed d len =
     \<lparr>prop_id = ''p'', prop_type = Opacity, customName = None, from_value = 0,
      to_value = 1, assetName = None, note_text = None, delay = d, duration = len,
      bezier = (1/4, 1/10, 1/4, 1)\<rparr>"

definition track_of :: "AnimatedProperty list \<Rightarrow> AnimationTrack" where
  "track_of ps = \<lparr>track_id = ''track-1'', track_name = ''t'', properties = ps\<rparr>"

subsection \<open>The scale computed inside the HTML export (App.tsx, handleDownloadHTML)\<close>

text \<open>
  The export does not call \<open>createVisualTimeScale\<close>: for every group it computes the
  time points, the table and the percentage again, in the body of \<open>forEach\<close>. The
  definitions below follow that text.
\<close>

definition html_allProps :: "AnimationGroup \<Rightarrow> AnimatedProperty list" where
  "html_allProps grp = concat (map properties (tracks grp))"

definition html_sortedPoints :: "AnimationGroup \<Rightarrow> real list" where
  "html_sortedPoints grp =
     sort (fold (\<lambda>p s. set_add (delay p + duration p) (set_add (delay p) s))
             (html_allProps grp) [0])"

definition html_maxRealDuration :: "AnimationGroup \<Rightarrow> real" where
  "html_maxRealDuration grp =
     (if html_sortedPoints grp = [] then 0
      else if last (html_sortedPoints grp) = 0 then 0
      else last (html_sortedPoints grp))"

function html_loop ::
  "AnimationGroup \<Rightarrow> real list \<Rightarrow> nat \<Rightarrow> real \<Rightarrow> VisualMapping list
     \<Rightarrow> real \<times> VisualMapping list" where
  "html_loop grp sp i currentVisual visualMap =
     (if int i < int (length sp) - 1 then
        (let tStart = sp ! i;
             tEnd = sp ! (i + 1);
             mid = (tStart + tEnd) / 2;
             isActive' =
               list_ex (\<lambda>p. mid \<ge> delay p \<and> mid \<le> delay p + duration p)
                 (html_allProps grp);
             realDuration = tEnd - tStart;
             visualDuration = (if isActive' then realDuration else min realDuration 60);
             currentVisual' = currentVisual + visualDuration
         in html_loop grp sp (i + 1) currentVisual'
              (visualMap @ [\<lparr>real' = tEnd, visual = currentVisual'\<rparr>]))
      else (currentVisual, visualMap))"
  by pat_completeness auto
termination
  by (relation "measure (\<lambda>(grp, sp, i, cv, vm). length sp - i)") auto

declare html_loop.simps [simp del]

definition html_getPercent :: "AnimationGroup \<Rightarrow> real \<Rightarrow> js_error + real" where
  "html_getPercent grp realTime =
     (let (currentVisual, visualMap) =
            html_loop grp (html_sortedPoints grp) 0 0 [\<lparr>real' = 0, visual = 0\<rparr>];
          totalVisualDuration' = (if currentVisual = 0 then 100 else currentVisual)
      in case findIndex (\<lambda>m. real' m \<ge> realTime) visualMap of
           None \<Rightarrow> Inr 100
         | Some segmentIndex \<Rightarrow>
             if segmentIndex = 0 then Inr 0
             else
               (case element_at visualMap segmentIndex of
                  Inl e \<Rightarrow> Inl e
                | Inr endPoint \<Rightarrow>
                    (case element_at visualMap (segmentIndex - 1) of
                       Inl e \<Rightarrow> Inl e
                     | Inr startPoint \<Rightarrow>
                         (case js_div (realTime - real' startPoint)
                                 (real' endPoint - real' startPoint) of
                            Inl e \<Rightarrow> Inl e
                          | Inr progressInSegment \<Rightarrow>
                              (case js_div
                                      (visual startPoint
                                         + progressInSegment
                                             * (visual endPoint - visual startPoint))
                                      totalVisualDuration' of
                                 Inl e \<Rightarrow> Inl e
                               | Inr q \<Rightarrow> Inr (q * 100))))))"

subsection \<open>The same code over JavaScript's numbers with Infinity and NaN\<close>




































subsection \<open>The same code with its objects in a heap\<close>

text \<open>
  \<open>createVisualTimeScale\<close> creates three objects that it changes after creating them or
  that the returned closure keeps: the set \<open>timePoints\<close> (changed by \<open>add\<close>), the
  array \<open>sortedPoints\<close> (sorted in place) and the array \<open>visualMap\<close> (grown by
  \<open>push\<close>, read by every later call of \<open>getPercent\<close>). In the definitions of this
  subsection these objects live in a heap: a list of objects, addressed by position, to
  which \<open>new\<close> and an array literal append. The builder takes the heap as it is at the
  call, whatever it holds, and returns the heap it leaves; \<open>getPercent\<close> reads the heap
  at the reference that the closure holds. A reference that does not lead to an object of
  the expected kind is \<open>TypeError\<close>.
\<close>

datatype heap_object =
  NumberSet "real list" | NumberArray "real list" | MappingArray "VisualMapping list"

type_synonym heap = "heap_object list"

definition alloc :: "heap_object \<Rightarrow> heap \<Rightarrow> nat \<times> heap" where
  "alloc obj h = (length h, h @ [obj])"

text \<open>\<open>timePoints.add(x)\<close>\<close>

definition set_add_at :: "nat \<Rightarrow> real \<Rightarrow> heap \<Rightarrow> js_error + heap" where
  "set_add_at a x h =
     (if a < length h then
        (case h ! a of
           NumberSet s \<Rightarrow> Inr (h[a := NumberSet (set_add x s)])
         | NumberArray xs \<Rightarrow> Inl TypeError
         | MappingArray vm \<Rightarrow> Inl TypeError)
      else Inl TypeError)"

text \<open>The \<open>forEach\<close> over the properties.\<close>

fun add_points_st :: "nat \<Rightarrow> AnimatedProperty list \<Rightarrow> heap \<Rightarrow> js_error + heap" where
  "add_points_st a [] h = Inr h"
| "add_points_st a (p # ps) h =
     (case set_add_at a (delay p) h of
        Inl e \<Rightarrow> Inl e
      | Inr h1 \<Rightarrow>
          (case set_add_at a (delay p + duration p) h1 of
             Inl e \<Rightarrow> Inl e
           | Inr h2 \<Rightarrow> add_points_st a ps h2))"

text \<open>\<open>Array.from(timePoints)\<close>: a new array with the members of the set.\<close>

definition array_from_set :: "nat \<Rightarrow> heap \<Rightarrow> js_error + nat \<times> heap" where
  "array_from_set a h =
     (if a < length h then
        (case h ! a of
           NumberSet s \<Rightarrow> Inr (alloc (NumberArray s) h)
         | NumberArray xs \<Rightarrow> Inl TypeError
         | MappingArray vm \<Rightarrow> Inl TypeError)
      else Inl TypeError)"

text \<open>\<open>.sort((a, b) => a - b)\<close> sorts the array in place.\<close>

definition sort_at :: "nat \<Rightarrow> heap \<Rightarrow> js_error + heap" where
  "sort_at a h =
     (if a < length h then
        (case h ! a of
           NumberArray xs \<Rightarrow> Inr (h[a := NumberArray (sort xs)])
         | NumberSet s \<Rightarrow> Inl TypeError
         | MappingArray vm \<Rightarrow> Inl TypeError)
      else Inl TypeError)"

text \<open>Reading the array of numbers, or the table, behind a reference.\<close>

definition get_numbers :: "nat \<Rightarrow> heap \<Rightarrow> js_error + real list" where
  "get_numbers a h =
     (if a < length h then
        (case h ! a of
           NumberArray xs \<Rightarrow> Inr xs
         | NumberSet s \<Rightarrow> Inl TypeError
         | MappingArray vm \<Rightarrow> Inl TypeError)
      else Inl TypeError)"

definition get_mappings :: "nat \<Rightarrow> heap \<Rightarrow> js_error + VisualMapping list" where
  "get_mappings a h =
     (if a < length h then
        (case h ! a of
           MappingArray vm \<Rightarrow> Inr vm
         | NumberSet s \<Rightarrow> Inl TypeError
         | NumberArray xs \<Rightarrow> Inl TypeError)
      else Inl TypeError)"

text \<open>\<open>visualMap.push(m)\<close>\<close>

definition push_at :: "nat \<Rightarrow> VisualMapping \<Rightarrow> heap \<Rightarrow> js_error + heap" where
  "push_at a m h =
     (case get_mappings a h of
        Inl e \<Rightarrow> Inl e
      | Inr vm \<Rightarrow> Inr (h[a := MappingArray (vm @ [m])]))"

text \<open>
  The \<open>for\<close> loop. \<open>sortedPoints\<close> and \<open>visualMap\<close> are references; the loop reads
  the length and the elements of the first through the heap in every round and pushes
  onto the second. \<open>currentVisual\<close> is a local number.
\<close>

function loop_st ::
  "AnimatedProperty list \<Rightarrow> nat \<Rightarrow> nat \<Rightarrow> nat \<Rightarrow> real \<Rightarrow> heap \<Rightarrow> js_error + real \<times> heap" where
  "loop_st ps sortedPoints_ref visualMap_ref i currentVisual h =
     (case get_numbers sortedPoints_ref h of
        Inl e \<Rightarrow> Inl e
      | Inr sp \<Rightarrow>
          if int i < int (length sp) - 1 then
            (let tStart = sp ! i;
                 tEnd = sp ! (i + 1);
                 mid = (tStart + tEnd) / 2;
                 realDuration = tEnd - tStart;
                 visualDuration =
                   (if isActive ps mid then realDuration
                    else min realDuration MAX_EMPTY_GAP_VISUAL);
                 currentVisual' = currentVisual + visualDuration
             in case push_at visualMap_ref \<lparr>real' = tEnd, visual = currentVisual'\<rparr> h of
                  Inl e \<Rightarrow> Inl e
                | Inr h' \<Rightarrow> loop_st ps sortedPoints_ref visualMap_ref (i + 1) currentVisual' h')
          else Inr (currentVisual, h))"
  by pat_completeness auto
termination
  by (relation "measure (\<lambda>(ps, sp_ref, vm_ref, i, cv, h).
        (case get_numbers sp_ref h of Inl e \<Rightarrow> 0 | Inr sp \<Rightarrow> length sp) - i)")
    (auto simp: get_numbers_def get_mappings_def push_at_def nth_list_update
       split: if_splits heap_object.splits sum.splits)

declare loop_st.simps [simp del]

text \<open>
  What the builder returns: the closure \<open>getPercent\<close>, which is the reference to
  \<open>visualMap\<close> and the number \<open>totalVisualDuration\<close> that it captured, and
  \<open>totalDuration\<close>.
\<close>

record scale_st =
  visualMap_ref :: nat
  totalVisualDuration_st :: real
  totalDuration_st :: real

definition createVisualTimeScale_st ::
  "AnimationTrack list \<Rightarrow> heap \<Rightarrow> js_error + scale_st \<times> heap" where
  "createVisualTimeScale_st trks h =
     (let ps = allProps trks;
          (timePoints_ref, h1) = alloc (NumberSet [0]) h
      in case add_points_st timePoints_ref ps h1 of
           Inl e \<Rightarrow> Inl e
         | Inr h2 \<Rightarrow>
             (case array_from_set timePoints_ref h2 of
                Inl e \<Rightarrow> Inl e
              | Inr (sortedPoints_ref, h3) \<Rightarrow>
                  (case sort_at sortedPoints_ref h3 of
                     Inl e \<Rightarrow> Inl e
                   | Inr h4 \<Rightarrow>
                       (case get_numbers sortedPoints_ref h4 of
                          Inl e \<Rightarrow> Inl e
                        | Inr sp \<Rightarrow>
                            (let maxReal =
                                   (if sp = [] then 0 else if last sp = 0 then 0 else last sp);
                                 (vm_ref, h5) =
                                   alloc (MappingArray [\<lparr>real' = 0, visual = 0\<rparr>]) h4
                             in case loop_st ps sortedPoints_ref vm_ref 0 0 h5 of
                                  Inl e \<Rightarrow> Inl e
                                | Inr (currentVisual, h6) \<Rightarrow>
                                    Inr (\<lparr>visualMap_ref = vm_ref,
                                          totalVisualDuration_st =
                                            (if currentVisual = 0 then 100 else currentVisual),
                                          totalDuration_st = maxReal\<rparr>, h6))))))"

text \<open>A call of the returned \<open>getPercent\<close> in the heap \<open>h\<close>; it changes no object.\<close>

definition getPercent_st :: "scale_st \<Rightarrow> real \<Rightarrow> heap \<Rightarrow> js_error + real" where
  "getPercent_st scale realTime h =
     (case get_mappings (visualMap_ref scale) h of
        Inl e \<Rightarrow> Inl e
      | Inr vm \<Rightarrow> getPercent_in vm (totalVisualDuration_st scale) realTime)"

subsection \<open>Auxiliary notions for the proofs\<close>

text \<open>
  The percentage \<open>getPercent\<close> computes when \<open>findIndex\<close> returns the index \<open>i\<close>,
  \<open>i > 0\<close>: the interpolation between entry \<open>i - 1\<close> and entry \<open>i\<close>.
\<close>

definition segment_value :: "VisualMapping list \<Rightarrow> real \<Rightarrow> real \<Rightarrow> nat \<Rightarrow> real" where
  "segment_value vm totalVis t i =
     (visual (vm ! (i - 1))
        + (t - real' (vm ! (i - 1))) / (real' (vm ! i) - real' (vm ! (i - 1)))
            * (visual (vm ! i) - visual (vm ! (i - 1)))) / totalVis * 100"

text \<open>
  The loop seen as a walk over the adjacent pairs of the list of points that are still to
  be visited (\<open>for_loop_walk\<close> below shows that \<open>for_loop\<close> at index \<open>i\<close> is this
  walk over \<open>drop i\<close> of the points). The invariants of the loop are proved on it.
\<close>

fun segment_loop ::
  "AnimatedProperty list \<Rightarrow> real list \<Rightarrow> real \<Rightarrow> VisualMapping list
     \<Rightarrow> real \<times> VisualMapping list" where
  "segment_loop ps (tStart # tEnd # rest) currentVisual visualMap =
     (let mid = (tStart + tEnd) / 2;
          realDuration = tEnd - tStart;
          visualDuration =
            (if isActive ps mid then realDuration
             else min realDuration MAX_EMPTY_GAP_VISUAL);
          currentVisual' = currentVisual + visualDuration
      in segment_loop ps (tEnd # rest) currentVisual'
           (visualMap @ [\<lparr>real' = tEnd, visual = currentVisual'\<rparr>]))"
| "segment_loop ps short currentVisual visualMap = (currentVisual, visualMap)"

text \<open>The hypothesis of the spec's data model: a start at or after 0, and an end not before it.\<close>

definition well_formed :: "AnimationTrack list \<Rightarrow> bool" where
  "well_formed trks = list_all (\<lambda>p. 0 \<le> delay p \<and> delay p \<le> delay p + duration p) (allProps trks)"




section \<open>Properties of the primitives and of the lookup\<close>


lemma findIndex_SomeD:
  "findIndex P xs = Some i \<Longrightarrow> i < length xs \<and> P (xs ! i) \<and> (\<forall>j<i. \<not> P (xs ! j))"
proof (induction xs arbitrary: i)
  case Nil
  then show ?case by simp
next
  case (Cons x xs)
  show ?case
  proof (cases "P x")
    case True
    with Cons.prems show ?thesis by simp
  next
    case False
    with Cons.prems obtain k where k: "findIndex P xs = Some k" "i = Suc k"
      by (auto split: option.splits)
    from Cons.IH [OF k(1)] have ih: "k < length xs" "P (xs ! k)" "\<forall>j<k. \<not> P (xs ! j)"
      by simp_all
    have "\<not> P ((x # xs) ! j)" if "j < i" for j
      using that False ih(3) k(2) by (cases j) simp_all
    with ih k(2) show ?thesis by simp
  qed
qed

lemma findIndex_Some_0: "P x \<Longrightarrow> findIndex P (x # xs) = Some 0"
  by simp

lemma getPercent_in_Some:
  assumes "findIndex (\<lambda>m. real' m \<ge> t) vm = Some i" "i \<noteq> 0" "T \<noteq> 0"
  shows "getPercent_in vm T t = Inr (segment_value vm T t i)"
proof -
  from findIndex_SomeD [OF assms(1)]
  have i: "i < length vm" "t \<le> real' (vm ! i)" "\<forall>j<i. \<not> t \<le> real' (vm ! j)"
    by simp_all
  from i(3) assms(2) have "\<not> t \<le> real' (vm ! (i - 1))" by simp
  with i(2) have "real' (vm ! i) - real' (vm ! (i - 1)) \<noteq> 0" by simp
  with assms i(1) show ?thesis
    by (simp add: getPercent_in_def element_at_def js_div_def segment_value_def Let_def)
qed

lemma getPercent_in_total:
  assumes "T \<noteq> 0"
  shows "\<exists>v. getPercent_in vm T t = Inr v"
proof (cases "findIndex (\<lambda>m. real' m \<ge> t) vm")
  case None
  then show ?thesis by (simp add: getPercent_in_def)
next
  case (Some i)
  show ?thesis
  proof (cases "i = 0")
    case True
    with Some show ?thesis by (simp add: getPercent_in_def)
  next
    case False
    from getPercent_in_Some [OF Some False assms] show ?thesis by blast
  qed
qed






section \<open>Properties of the time points and of the loop\<close>

lemma set_set_add: "set (set_add x s) = insert x (set s)"
  by (auto simp: set_add_def)

lemma distinct_set_add: "distinct s \<Longrightarrow> distinct (set_add x s)"
  by (simp add: set_add_def)

lemma set_fold_points:
  "set (fold (\<lambda>p s. set_add (delay p + duration p) (set_add (delay p) s)) ps s0)
     = set s0 \<union> (\<Union>p\<in>set ps. {delay p, delay p + duration p})"
  by (induction ps arbitrary: s0) (auto simp: set_set_add)

lemma distinct_fold_points:
  "distinct s0 \<Longrightarrow>
     distinct (fold (\<lambda>p s. set_add (delay p + duration p) (set_add (delay p) s)) ps s0)"
  by (induction ps arbitrary: s0) (simp_all add: distinct_set_add)

lemma set_timePoints:
  "set (timePoints ps) = insert 0 (\<Union>p\<in>set ps. {delay p, delay p + duration p})"
  by (simp add: timePoints_def set_fold_points)

lemma distinct_timePoints: "distinct (timePoints ps)"
  by (simp add: timePoints_def distinct_fold_points)

lemma sortedPoints_props:
  "sorted (sortedPoints ps)" "distinct (sortedPoints ps)"
  "set (sortedPoints ps) = insert 0 (\<Union>p\<in>set ps. {delay p, delay p + duration p})"
  "sortedPoints ps \<noteq> []"
proof -
  show "sorted (sortedPoints ps)" by (simp add: sortedPoints_def)
  show "distinct (sortedPoints ps)" by (simp add: sortedPoints_def distinct_timePoints)
  show s: "set (sortedPoints ps) = insert 0 (\<Union>p\<in>set ps. {delay p, delay p + duration p})"
    by (simp add: sortedPoints_def set_timePoints)
  from s show "sortedPoints ps \<noteq> []" by auto
qed

lemma sortedPoints_hd:
  assumes "\<forall>p\<in>set ps. 0 \<le> delay p \<and> 0 \<le> duration p"
  shows "hd (sortedPoints ps) = 0"
proof -
  obtain x xs where sp: "sortedPoints ps = x # xs"
    using sortedPoints_props(4) [of ps] by (cases "sortedPoints ps") simp_all
  have nonneg: "\<forall>y\<in>set (sortedPoints ps). 0 \<le> y"
    using assms by (auto simp: sortedPoints_props(3))
  have "0 \<in> set (sortedPoints ps)" by (simp add: sortedPoints_props(3))
  with sp sortedPoints_props(1) [of ps] have "x \<le> 0" by auto
  moreover from nonneg sp have "0 \<le> x" by simp
  ultimately show ?thesis using sp by simp
qed

lemma for_loop_walk: "for_loop ps sp i cv vm = segment_loop ps (drop i sp) cv vm"
proof (induction ps sp i cv vm rule: for_loop.induct)
  case (1 ps sp i cv vm)
  show ?case
  proof (cases "int i < int (length sp) - 1")
    case True
    then have i: "i < length sp" "Suc i < length sp" by simp_all
    define dv where "dv = (if isActive ps ((sp ! i + sp ! (i + 1)) / 2) then sp ! (i + 1) - sp ! i
        else min (sp ! (i + 1) - sp ! i) MAX_EMPTY_GAP_VISUAL)"
    define e where "e = \<lparr>real' = sp ! (i + 1), visual = cv + dv\<rparr>"
    have lhs: "for_loop ps sp i cv vm = for_loop ps sp (i + 1) (cv + dv) (vm @ [e])"
      by (subst for_loop.simps) (simp only: True if_True Let_def dv_def e_def)
    have "drop i sp = sp ! i # drop (Suc i) sp" using i(1) by (simp add: Cons_nth_drop_Suc)
    moreover have "drop (Suc i) sp = sp ! (i + 1) # drop (Suc (Suc i)) sp"
      using i(2) by (simp add: Cons_nth_drop_Suc)
    ultimately have d: "drop i sp = sp ! i # sp ! (i + 1) # drop (Suc (Suc i)) sp"
      and d': "drop (i + 1) sp = sp ! (i + 1) # drop (Suc (Suc i)) sp" by simp_all
    have rhs: "segment_loop ps (drop i sp) cv vm
        = segment_loop ps (drop (i + 1) sp) (cv + dv) (vm @ [e])"
      unfolding d d' by (simp only: segment_loop.simps Let_def dv_def e_def)
    have "for_loop ps sp (i + 1) (cv + dv) (vm @ [e])
        = segment_loop ps (drop (i + 1) sp) (cv + dv) (vm @ [e])"
      unfolding dv_def e_def by (rule "1.IH" [OF True refl refl refl refl refl refl])
    with lhs rhs show ?thesis by simp
  next
    case False
    then have "length (drop i sp) \<le> 1" by simp
    then have "segment_loop ps (drop i sp) cv vm = (cv, vm)"
      by (cases "drop i sp"; cases "tl (drop i sp)") simp_all
    with False show ?thesis by (subst for_loop.simps) simp
  qed
qed

lemma build_map_walk:
  "build_map ps = segment_loop ps (sortedPoints ps) 0 [\<lparr>real' = 0, visual = 0\<rparr>]"
  by (simp add: build_map_def for_loop_walk)

lemma segment_loop_real:
  "map real' (snd (segment_loop ps sp cv vm)) = map real' vm @ tl sp"
  by (induction ps sp cv vm rule: segment_loop.induct) (simp_all add: Let_def)

lemma segment_loop_take:
  "take (length vm) (snd (segment_loop ps sp cv vm)) = vm"
proof (induction ps sp cv vm rule: segment_loop.induct)
  case (1 ps tStart tEnd rest cv vm)
  define e where "e = \<lparr>real' = tEnd, visual = cv + (if isActive ps ((tStart + tEnd) / 2) then tEnd - tStart else min (tEnd - tStart) MAX_EMPTY_GAP_VISUAL)\<rparr>"
  from 1 have "take (length (vm @ [e])) (snd (segment_loop ps (tStart # tEnd # rest) cv vm)) = vm @ [e]"
    by (simp add: Let_def e_def)
  then have "take (length vm) (take (length (vm @ [e])) (snd (segment_loop ps (tStart # tEnd # rest) cv vm))) = take (length vm) (vm @ [e])"
    by simp
  then show ?case by (simp add: min_def)
qed simp_all

lemma segment_loop_visual:
  assumes "sorted sp" "sorted (map visual vm)" "\<forall>m\<in>set vm. 0 \<le> visual m \<and> visual m \<le> cv"
    "0 \<le> cv"
  shows "sorted (map visual (snd (segment_loop ps sp cv vm)))
     \<and> (\<forall>m\<in>set (snd (segment_loop ps sp cv vm)).
           0 \<le> visual m \<and> visual m \<le> fst (segment_loop ps sp cv vm))
     \<and> cv \<le> fst (segment_loop ps sp cv vm)"
  using assms
proof (induction ps sp cv vm rule: segment_loop.induct)
  case (1 ps tStart tEnd rest cv vm)
  define d where "d = (if isActive ps ((tStart + tEnd) / 2) then tEnd - tStart else min (tEnd - tStart) MAX_EMPTY_GAP_VISUAL)"
  define e where "e = \<lparr>real' = tEnd, visual = cv + d\<rparr>"
  from "1.prems"(1) have "tStart \<le> tEnd" by simp
  then have d: "0 \<le> d" by (simp add: d_def MAX_EMPTY_GAP_VISUAL_def)
  have step: "segment_loop ps (tStart # tEnd # rest) cv vm = segment_loop ps (tEnd # rest) (cv + d) (vm @ [e])"
    by (simp add: Let_def d_def e_def)
  have a: "sorted (tEnd # rest)" using "1.prems"(1) by simp
  have b: "sorted (map visual (vm @ [e]))"
    using "1.prems"(2,3) d by (auto simp: sorted_append e_def)
  have c: "\<forall>m\<in>set (vm @ [e]). 0 \<le> visual m \<and> visual m \<le> cv + d"
    using "1.prems"(3,4) d by (auto simp: e_def)
  have c0: "0 \<le> cv + d" using "1.prems"(4) d by simp
  have "sorted (map visual (snd (segment_loop ps (tEnd # rest) (cv + d) (vm @ [e]))))
     \<and> (\<forall>m\<in>set (snd (segment_loop ps (tEnd # rest) (cv + d) (vm @ [e]))).
           0 \<le> visual m \<and> visual m \<le> fst (segment_loop ps (tEnd # rest) (cv + d) (vm @ [e])))
     \<and> cv + d \<le> fst (segment_loop ps (tEnd # rest) (cv + d) (vm @ [e]))"
    using "1.IH" [OF refl refl refl refl a] b c c0 unfolding d_def e_def by simp
  with d show ?case unfolding step by auto
qed simp_all


section \<open>Properties of the built table\<close>

lemma segment_loop_last:
  "vm \<noteq> [] \<Longrightarrow> visual (last vm) = cv \<Longrightarrow>
     snd (segment_loop ps sp cv vm) \<noteq> []
     \<and> visual (last (snd (segment_loop ps sp cv vm))) = fst (segment_loop ps sp cv vm)"
  by (induction ps sp cv vm rule: segment_loop.induct) (simp_all add: Let_def)

lemma visualMap_of_first:
  "\<exists>rest. visualMap_of ps = \<lparr>real' = 0, visual = 0\<rparr> # rest"
proof -
  define r where "r = snd (segment_loop ps (sortedPoints ps) 0 [\<lparr>real' = 0, visual = 0\<rparr>])"
  have "take (length [\<lparr>real' = 0, visual = 0\<rparr>]) r = [\<lparr>real' = 0, visual = 0\<rparr>]"
    unfolding r_def by (rule segment_loop_take)
  then have "take 1 r = [\<lparr>real' = 0, visual = 0\<rparr>]" by simp
  then have "r = \<lparr>real' = 0, visual = 0\<rparr> # tl r"
    by (cases r) simp_all
  then show ?thesis unfolding visualMap_of_def build_map_walk r_def by blast
qed

lemma visualMap_of_real: "map real' (visualMap_of ps) = 0 # tl (sortedPoints ps)"
  by (simp add: visualMap_of_def build_map_walk segment_loop_real)

lemma visualMap_of_visual:
  "sorted (map visual (visualMap_of ps))"
  "\<forall>m\<in>set (visualMap_of ps). 0 \<le> visual m \<and> visual m \<le> currentVisual_of ps"
  "0 \<le> currentVisual_of ps"
  using segment_loop_visual [of "sortedPoints ps" "[\<lparr>real' = 0, visual = 0\<rparr>]" 0 ps]
    sortedPoints_props(1) [of ps]
  by (simp_all add: visualMap_of_def currentVisual_of_def build_map_walk)

lemma visualMap_of_last:
  "visualMap_of ps \<noteq> []" "visual (last (visualMap_of ps)) = currentVisual_of ps"
  using segment_loop_last [of "[\<lparr>real' = 0, visual = 0\<rparr>]" 0 ps "sortedPoints ps"]
  by (simp_all add: visualMap_of_def currentVisual_of_def build_map_walk)

lemma totalVisualDuration_pos: "0 < totalVisualDuration ps"
  using visualMap_of_visual(3) [of ps] by (simp add: totalVisualDuration_def)

lemma visual_le_total:
  "\<forall>m\<in>set (visualMap_of ps). 0 \<le> visual m \<and> visual m \<le> totalVisualDuration ps"
proof
  fix m assume "m \<in> set (visualMap_of ps)"
  with visualMap_of_visual(2) [of ps]
  have "0 \<le> visual m" "visual m \<le> currentVisual_of ps" by simp_all
  then show "0 \<le> visual m \<and> visual m \<le> totalVisualDuration ps"
    by (simp add: totalVisualDuration_def)
qed

lemma getPercent_unfold:
  "getPercent (createVisualTimeScale trks) t
     = getPercent_in (visualMap_of (allProps trks)) (totalVisualDuration (allProps trks)) t"
  by (simp add: createVisualTimeScale_def Let_def)

subsection \<open>Finding an index, and the hypothesis on the intervals\<close>


lemma well_formed_nonneg:
  "well_formed trks \<Longrightarrow> \<forall>p\<in>set (allProps trks). 0 \<le> delay p \<and> 0 \<le> duration p"
  by (simp add: well_formed_def list_all_iff)

subsection \<open>The result depends on the timing of the properties only\<close>

lemma timePoints_timing:
  "timePoints ps = fold (\<lambda>(d, len) s. set_add (d + len) (set_add d s))
                     (map (\<lambda>p. (delay p, duration p)) ps) [0]"
  by (simp add: timePoints_def fold_map comp_def)

lemma isActive_timing:
  "isActive ps mid = list_ex (\<lambda>(d, len). mid \<ge> d \<and> mid \<le> d + len)
                       (map (\<lambda>p. (delay p, duration p)) ps)"
  by (simp add: isActive_def list_ex_iff)

lemma segment_loop_cong:
  assumes "\<And>mid. isActive ps1 mid = isActive ps2 mid"
  shows "segment_loop ps1 sp cv vm = segment_loop ps2 sp cv vm"
  using assms
proof (induction ps1 sp cv vm rule: segment_loop.induct)
  case (1 ps tStart tEnd rest currentVisual visualMap)
  from "1.IH" [OF refl refl refl refl "1.prems"] show ?case
    by (simp add: Let_def "1.prems")
qed simp_all

lemma scale_depends_on_timing_only:
  assumes "map (\<lambda>p. (delay p, duration p)) (allProps trks1)
             = map (\<lambda>p. (delay p, duration p)) (allProps trks2)"
  shows "createVisualTimeScale trks1 = createVisualTimeScale trks2"
proof -
  have tp: "timePoints (allProps trks1) = timePoints (allProps trks2)"
    by (simp only: timePoints_timing assms)
  have act: "isActive (allProps trks1) mid = isActive (allProps trks2) mid" for mid
    by (simp only: isActive_timing assms)
  have "build_map (allProps trks1) = build_map (allProps trks2)"
    using segment_loop_cong [of "allProps trks1" "allProps trks2", OF act]
    by (simp add: build_map_walk sortedPoints_def tp)
  then show ?thesis
    by (simp add: createVisualTimeScale_def Let_def visualMap_of_def totalVisualDuration_def
        currentVisual_of_def maxRealDuration_def sortedPoints_def tp)
qed

subsection \<open>The HTML export computes the same table\<close>

lemma html_loop_for_loop:
  "html_loop grp sp i cv vm = for_loop (allProps (tracks grp)) sp i cv vm"
proof (induction grp sp i cv vm rule: html_loop.induct)
  case (1 grp sp i cv vm)
  show ?case
  proof (cases "int i < int (length sp) - 1")
    case True
    define dv where "dv =
      (if list_ex (\<lambda>p. (sp ! i + sp ! (i + 1)) / 2 \<ge> delay p
                      \<and> (sp ! i + sp ! (i + 1)) / 2 \<le> delay p + duration p)
            (html_allProps grp)
       then sp ! (i + 1) - sp ! i else min (sp ! (i + 1) - sp ! i) 60)"
    define e where "e = \<lparr>real' = sp ! (i + 1), visual = cv + dv\<rparr>"
    have dv_code: "(if isActive (allProps (tracks grp)) ((sp ! i + sp ! (i + 1)) / 2)
         then sp ! (i + 1) - sp ! i
         else min (sp ! (i + 1) - sp ! i) MAX_EMPTY_GAP_VISUAL) = dv"
      by (simp only: dv_def isActive_def MAX_EMPTY_GAP_VISUAL_def html_allProps_def allProps_def)
    have l: "html_loop grp sp i cv vm = html_loop grp sp (i + 1) (cv + dv) (vm @ [e])"
      by (subst html_loop.simps) (simp only: True if_True Let_def dv_def e_def)
    have r: "for_loop (allProps (tracks grp)) sp i cv vm
        = for_loop (allProps (tracks grp)) sp (i + 1) (cv + dv) (vm @ [e])"
      by (subst for_loop.simps) (simp only: True if_True Let_def dv_code e_def)
    have "html_loop grp sp (i + 1) (cv + dv) (vm @ [e])
        = for_loop (allProps (tracks grp)) sp (i + 1) (cv + dv) (vm @ [e])"
      unfolding dv_def e_def by (rule "1.IH" [OF True refl refl refl refl refl refl refl])
    with l r show ?thesis by simp
  next
    case False
    then show ?thesis by (subst html_loop.simps, subst for_loop.simps) simp
  qed
qed

lemma html_sortedPoints_eq: "html_sortedPoints grp = sortedPoints (allProps (tracks grp))"
  by (simp add: html_sortedPoints_def sortedPoints_def timePoints_def html_allProps_def
      allProps_def)

lemma html_getPercent_eq:
  "html_getPercent grp t
     = getPercent_in (visualMap_of (allProps (tracks grp)))
         (totalVisualDuration (allProps (tracks grp))) t"
  unfolding html_getPercent_def getPercent_in_def visualMap_of_def totalVisualDuration_def
    currentVisual_of_def build_map_def html_sortedPoints_eq html_loop_for_loop
    Let_def case_prod_unfold
  by (rule refl)

section \<open>Properties of the embedding over \<open>jsnum\<close>\<close>
























section \<open>Properties of the embedding with a heap\<close>

lemma add_points_st_result:
  assumes "a < length h" "h ! a = NumberSet s"
  shows "add_points_st a ps h
           = Inr (h[a := NumberSet
                    (fold (\<lambda>p s. set_add (delay p + duration p) (set_add (delay p) s)) ps s)])"
  using assms
proof (induction ps arbitrary: h s)
  case Nil
  have "h[a := h ! a] = h" by (rule list_update_id)
  with Nil show ?case by simp
next
  case (Cons p ps)
  define s1 where "s1 = set_add (delay p) s"
  define s2 where "s2 = set_add (delay p + duration p) s1"
  define h1 where "h1 = h[a := NumberSet s1]"
  define h2 where "h2 = h[a := NumberSet s2]"
  have a1: "set_add_at a (delay p) h = Inr h1"
    using Cons.prems by (simp add: set_add_at_def h1_def s1_def)
  have a2: "set_add_at a (delay p + duration p) h1 = Inr h2"
    using Cons.prems(1) by (simp add: set_add_at_def h1_def h2_def s2_def)
  have "a < length h2" "h2 ! a = NumberSet s2" using Cons.prems(1) by (simp_all add: h2_def)
  from Cons.IH [OF this] a1 a2 show ?case by (simp add: h2_def s2_def s1_def)
qed

lemma loop_st_result:
  assumes "sp_ref < length h" "h ! sp_ref = NumberArray sp"
    and "vm_ref < length h" "h ! vm_ref = MappingArray vm"
  shows "loop_st ps sp_ref vm_ref i cv h
           = Inr (fst (for_loop ps sp i cv vm),
                  h[vm_ref := MappingArray (snd (for_loop ps sp i cv vm))])"
  using assms
proof (induction ps sp i cv vm arbitrary: h rule: for_loop.induct)
  case (1 ps sp i cv vm)
  have gn: "get_numbers sp_ref h = Inr sp" using "1.prems"(1,2) by (simp add: get_numbers_def)
  have neq: "sp_ref \<noteq> vm_ref" using "1.prems"(2,4) by auto
  show ?case
  proof (cases "int i < int (length sp) - 1")
    case True
    define dv where "dv = (if isActive ps ((sp ! i + sp ! (i + 1)) / 2) then sp ! (i + 1) - sp ! i
        else min (sp ! (i + 1) - sp ! i) MAX_EMPTY_GAP_VISUAL)"
    define e where "e = \<lparr>real' = sp ! (i + 1), visual = cv + dv\<rparr>"
    define h' where "h' = h[vm_ref := MappingArray (vm @ [e])]"
    have push: "push_at vm_ref e h = Inr h'"
      using "1.prems"(3,4) by (simp add: push_at_def get_mappings_def h'_def)
    have l: "loop_st ps sp_ref vm_ref i cv h = loop_st ps sp_ref vm_ref (i + 1) (cv + dv) h'"
      by (subst loop_st.simps)
        (simp only: gn sum.case True if_True Let_def dv_def [symmetric] e_def [symmetric] push)
    have r: "for_loop ps sp i cv vm = for_loop ps sp (i + 1) (cv + dv) (vm @ [e])"
      by (subst for_loop.simps) (simp only: True if_True Let_def dv_def e_def)
    have p: "sp_ref < length h'" "h' ! sp_ref = NumberArray sp" "vm_ref < length h'"
      "h' ! vm_ref = MappingArray (vm @ [e])"
      using "1.prems" neq by (simp_all add: h'_def)
    have "loop_st ps sp_ref vm_ref (i + 1) (cv + dv) h'
        = Inr (fst (for_loop ps sp (i + 1) (cv + dv) (vm @ [e])),
               h'[vm_ref := MappingArray (snd (for_loop ps sp (i + 1) (cv + dv) (vm @ [e])))])"
      using p unfolding dv_def e_def
      by (intro "1.IH" [OF True refl refl refl refl refl refl])
    with l r show ?thesis by (simp add: h'_def)
  next
    case False
    have "for_loop ps sp i cv vm = (cv, vm)" using False by (subst for_loop.simps) simp
    moreover have "loop_st ps sp_ref vm_ref i cv h = Inr (cv, h)"
      using False by (subst loop_st.simps) (simp add: gn)
    moreover have "h[vm_ref := h ! vm_ref] = h" by (rule list_update_id)
    ultimately show ?thesis using "1.prems"(4) by simp
  qed
qed

lemma createVisualTimeScale_st_result:
  "createVisualTimeScale_st trks h
     = Inr (\<lparr>visualMap_ref = length h + 2,
            totalVisualDuration_st = totalVisualDuration (allProps trks),
            totalDuration_st = maxRealDuration (allProps trks)\<rparr>,
           h @ [NumberSet (timePoints (allProps trks)),
                NumberArray (sortedPoints (allProps trks)),
                MappingArray (visualMap_of (allProps trks))])"
proof -
  define ps where "ps = allProps trks"
  define n where "n = length h"
  define h1 where "h1 = h @ [NumberSet [0]]"
  define h2 where "h2 = h @ [NumberSet (timePoints ps)]"
  define h3 where "h3 = h @ [NumberSet (timePoints ps), NumberArray (timePoints ps)]"
  define h4 where "h4 = h @ [NumberSet (timePoints ps), NumberArray (sortedPoints ps)]"
  define h5 where "h5 = h @ [NumberSet (timePoints ps), NumberArray (sortedPoints ps),
                             MappingArray [\<lparr>real' = 0, visual = 0\<rparr>]]"
  define h6 where "h6 = h @ [NumberSet (timePoints ps), NumberArray (sortedPoints ps),
                             MappingArray (visualMap_of ps)]"
  have s1: "alloc (NumberSet [0]) h = (n, h1)" by (simp add: alloc_def n_def h1_def)
  have s2: "add_points_st n ps h1 = Inr h2"
    using add_points_st_result [of n h1 "[0]" ps]
    by (simp add: n_def h1_def h2_def timePoints_def)
  have s3: "array_from_set n h2 = Inr (n + 1, h3)"
    by (simp add: array_from_set_def alloc_def n_def h2_def h3_def)
  have s4: "sort_at (n + 1) h3 = Inr h4"
    by (simp add: sort_at_def n_def h3_def h4_def sortedPoints_def nth_append list_update_append)
  have s5: "get_numbers (n + 1) h4 = Inr (sortedPoints ps)"
    by (simp add: get_numbers_def n_def h4_def nth_append)
  have s6: "alloc (MappingArray [\<lparr>real' = 0, visual = 0\<rparr>]) h4 = (n + 2, h5)"
    by (simp add: alloc_def n_def h4_def h5_def)
  have "loop_st ps (n + 1) (n + 2) 0 0 h5
      = Inr (fst (for_loop ps (sortedPoints ps) 0 0 [\<lparr>real' = 0, visual = 0\<rparr>]),
             h5[n + 2 := MappingArray
                  (snd (for_loop ps (sortedPoints ps) 0 0 [\<lparr>real' = 0, visual = 0\<rparr>]))])"
    by (rule loop_st_result) (simp_all add: n_def h5_def nth_append)
  then have s7: "loop_st ps (n + 1) (n + 2) 0 0 h5 = Inr (currentVisual_of ps, h6)"
    by (simp add: currentVisual_of_def visualMap_of_def build_map_def n_def h5_def h6_def
        list_update_append)
  show ?thesis
    unfolding createVisualTimeScale_st_def ps_def [symmetric] Let_def s1 prod.case s2 sum.case
      s3 s4 s5 s6 s7
    by (simp add: maxRealDuration_def totalVisualDuration_def Let_def n_def h6_def)
qed

lemma getPercent_st_result:
  "getPercent_st
     \<lparr>visualMap_ref = length h + 2, totalVisualDuration_st = T, totalDuration_st = D\<rparr> t
     (h @ [o1, o2, MappingArray vm] @ later) = getPercent_in vm T t"
  by (simp add: getPercent_st_def get_mappings_def nth_append)

text \<open>The heap-free embedding over \<open>real\<close> returns what the builder with a heap returns.\<close>

lemma heap_scale_agrees:
  "\<exists>r new. createVisualTimeScale_st trks h = Inr (r, h @ new)
     \<and> totalDuration_st r = totalDuration (createVisualTimeScale trks)
     \<and> (\<forall>t later. getPercent_st r t (h @ new @ later)
                      = getPercent (createVisualTimeScale trks) t)"
proof -
  define ps where "ps = allProps trks"
  define new where "new = [NumberSet (timePoints ps), NumberArray (sortedPoints ps),
                           MappingArray (visualMap_of ps)]"
  define r where "r = \<lparr>visualMap_ref = length h + 2,
            totalVisualDuration_st = totalVisualDuration ps,
            totalDuration_st = maxRealDuration ps\<rparr>"
  have b: "createVisualTimeScale_st trks h = Inr (r, h @ new)"
    by (simp add: createVisualTimeScale_st_result r_def new_def ps_def)
  have g: "getPercent_st r t (h @ new @ later)
      = getPercent_in (visualMap_of ps) (totalVisualDuration ps) t" for t later
    using getPercent_st_result [of h _ _ t _ _ "visualMap_of ps" later]
    by (simp add: r_def new_def)
  have td: "totalDuration_st r = totalDuration (createVisualTimeScale trks)"
    by (simp add: r_def createVisualTimeScale_def Let_def ps_def)
  have gp: "getPercent_st r t (h @ new @ later) = getPercent (createVisualTimeScale trks) t"
    for t later
    by (simp add: g getPercent_unfold ps_def)
  from b td gp show ?thesis by blast
qed

section \<open>Evaluating the embeddings on concrete inputs\<close>

text \<open>
  The definitions that evaluating the scale on a concrete input unfolds, over \<open>real\<close>
  and over \<open>jsnum\<close>; the loops are evaluated as walks over adjacent pairs.
\<close>

lemmas example_defs =
  createVisualTimeScale_def allProps_def track_of_def timed_def visualMap_of_def build_map_walk
  sortedPoints_def timePoints_def set_add_def isActive_def MAX_EMPTY_GAP_VISUAL_def
  totalVisualDuration_def currentVisual_of_def getPercent_in_def element_at_def js_div_def
  maxRealDuration_def well_formed_def


section \<open>The claims\<close>




text \<open>
  C2, as stated, fails. With no property at all the table is the single entry (0, 0),
  \<open>findIndex\<close> finds nothing for a positive time, and \<open>getPercent\<close> returns 100
  there, not 0.
\<close>

theorem empty_scale_counterexample:
  "allProps [] = [] \<and> getPercent (createVisualTimeScale []) 5 = Inr 100
   \<and> getPercent (createVisualTimeScale []) 5 \<noteq> Inr 0"
  by (simp add: example_defs)

text \<open>
  C2, amended. When the flattened list of properties is empty, \<open>totalDuration\<close> is 0
  and \<open>getPercent\<close> maps every time at or before 0 to 0 and every later time to 100.
\<close>

theorem empty_scale:
  assumes "allProps trks = []"
  shows "totalDuration (createVisualTimeScale trks) = 0
     \<and> getPercent (createVisualTimeScale trks) t = Inr (if t \<le> 0 then 0 else 100)"
  using assms
  by (simp add: createVisualTimeScale_def visualMap_of_def build_map_walk sortedPoints_def
      timePoints_def totalVisualDuration_def currentVisual_of_def getPercent_in_def
      maxRealDuration_def)

theorem empty_scale_witness:
  "allProps [track_of []] = []
   \<and> totalDuration (createVisualTimeScale [track_of []]) = 0
   \<and> getPercent (createVisualTimeScale [track_of []]) 7 = Inr 100
   \<and> getPercent (createVisualTimeScale [track_of []]) (- 3) = Inr 0"
proof -
  have e: "allProps [track_of []] = []" by (simp add: allProps_def track_of_def)
  from empty_scale [OF e, of 7] empty_scale [OF e, of "- 3"] e show ?thesis by simp
qed




text \<open>
  C4. For the two disjoint intervals [0, 100] and [5000, 5100] the time points are
  0, 100, 5000, 5100; the midpoint test finds the middle segment idle and the outer two
  active; the idle segment adds \<open>MAX_EMPTY_GAP_VISUAL = 60\<close> to the accumulated visual
  value (not its real length 4900), and each active segment adds its real length 100.
\<close>

theorem idle_gap_compressed:
  "sortedPoints (allProps [track_of [timed 0 100], track_of [timed 5000 100]])
      = [0, 100, 5000, 5100]
   \<and> isActive (allProps [track_of [timed 0 100], track_of [timed 5000 100]]) ((0 + 100) / 2)
   \<and> \<not> isActive (allProps [track_of [timed 0 100], track_of [timed 5000 100]])
         ((100 + 5000) / 2)
   \<and> isActive (allProps [track_of [timed 0 100], track_of [timed 5000 100]])
         ((5000 + 5100) / 2)
   \<and> visualMap_of (allProps [track_of [timed 0 100], track_of [timed 5000 100]])
      = [\<lparr>real' = 0, visual = 0\<rparr>, \<lparr>real' = 100, visual = 0 + 100\<rparr>,
         \<lparr>real' = 5000, visual = 100 + MAX_EMPTY_GAP_VISUAL\<rparr>,
         \<lparr>real' = 5100, visual = 100 + MAX_EMPTY_GAP_VISUAL + 100\<rparr>]
   \<and> MAX_EMPTY_GAP_VISUAL = 60"
  by (simp add: example_defs)

text \<open>
  C5. One track with the intervals [0, 400] and [0, 600]: the time points are 0, 400, 600,
  both segments are active, the accumulated visual length is 600, \<open>getPercent 400\<close> is
  \<open>400 / 600 * 100\<close> and \<open>getPercent 600\<close> is 100.
\<close>

theorem two_overlapping_properties:
  "sortedPoints (allProps [track_of [timed 0 400, timed 0 600]]) = [0, 400, 600]
   \<and> isActive (allProps [track_of [timed 0 400, timed 0 600]]) ((0 + 400) / 2)
   \<and> isActive (allProps [track_of [timed 0 400, timed 0 600]]) ((400 + 600) / 2)
   \<and> currentVisual_of (allProps [track_of [timed 0 400, timed 0 600]]) = 600
   \<and> getPercent (createVisualTimeScale [track_of [timed 0 400, timed 0 600]]) 400
        = Inr (400 / 600 * 100)
   \<and> getPercent (createVisualTimeScale [track_of [timed 0 400, timed 0 600]]) 600 = Inr 100"
  by (simp add: example_defs)

text \<open>
  C6. The builder and the returned \<open>getPercent\<close> are total and never divide by zero:
  for every list of tracks (empty, with zero-length intervals, with overlapping or equal
  boundaries, of any sign) and every time, \<open>getPercent\<close> returns a number, neither
  \<open>NonFinite\<close> nor \<open>TypeError\<close>; and for the single interval with
  \<open>start = end = 500\<close> the value at 500 is the number 100.
\<close>

theorem percent_total:
  "(\<exists>v. getPercent (createVisualTimeScale trks) t = Inr v)
   \<and> getPercent (createVisualTimeScale [track_of [timed 500 0]]) 500 = Inr 100"
proof
  have "totalVisualDuration (allProps trks) \<noteq> 0"
    using totalVisualDuration_pos [of "allProps trks"] by simp
  then show "\<exists>v. getPercent (createVisualTimeScale trks) t = Inr v"
    unfolding getPercent_unfold by (rule getPercent_in_total)
  show "getPercent (createVisualTimeScale [track_of [timed 500 0]]) 500 = Inr 100"
    by (simp add: example_defs)
qed

text \<open>
  C7. For every well-formed input the table starts with the entry (0, 0), its \<open>real\<close>
  and its \<open>visual\<close> components are non-decreasing from entry to entry, and every
  \<open>visual\<close> value lies between 0 and \<open>totalVisualDuration\<close>, which is the last
  accumulated value, or 100 when that value is 0.
\<close>

theorem visual_map_invariants:
  assumes "well_formed trks"
  shows "visualMap_of (allProps trks) \<noteq> []
     \<and> hd (visualMap_of (allProps trks)) = \<lparr>real' = 0, visual = 0\<rparr>
     \<and> sorted (map real' (visualMap_of (allProps trks)))
     \<and> sorted (map visual (visualMap_of (allProps trks)))
     \<and> list_all (\<lambda>m. 0 \<le> visual m \<and> visual m \<le> totalVisualDuration (allProps trks))
           (visualMap_of (allProps trks))
     \<and> currentVisual_of (allProps trks) = visual (last (visualMap_of (allProps trks)))
     \<and> totalVisualDuration (allProps trks)
          = (if currentVisual_of (allProps trks) = 0 then 100
             else currentVisual_of (allProps trks))"
proof -
  define ps where "ps = allProps trks"
  from well_formed_nonneg [OF assms]
  have nn: "\<forall>p\<in>set ps. 0 \<le> delay p \<and> 0 \<le> duration p" by (simp add: ps_def)
  obtain rest where "visualMap_of ps = \<lparr>real' = 0, visual = 0\<rparr> # rest"
    using visualMap_of_first by blast
  then have first: "hd (visualMap_of ps) = \<lparr>real' = 0, visual = 0\<rparr>" by simp
  have "0 # tl (sortedPoints ps) = sortedPoints ps"
    using sortedPoints_hd [OF nn] sortedPoints_props(4) [of ps]
    by (cases "sortedPoints ps") simp_all
  then have "map real' (visualMap_of ps) = sortedPoints ps"
    by (simp add: visualMap_of_real)
  then have reals: "sorted (map real' (visualMap_of ps))"
    by (simp add: sortedPoints_props(1))
  have rng: "list_all (\<lambda>m. 0 \<le> visual m \<and> visual m \<le> totalVisualDuration ps) (visualMap_of ps)"
    using visual_le_total [of ps] by (simp add: list_all_iff)
  show ?thesis
    using first reals visualMap_of_visual(1) [of ps] rng visualMap_of_last [of ps]
    unfolding ps_def by (simp add: totalVisualDuration_def)
qed

theorem visual_map_invariants_witness:
  "well_formed [track_of [timed 0 100], track_of [timed 5000 100]]
   \<and> hd (visualMap_of (allProps [track_of [timed 0 100], track_of [timed 5000 100]]))
        = \<lparr>real' = 0, visual = 0\<rparr>
   \<and> sorted (map real' (visualMap_of (allProps [track_of [timed 0 100], track_of [timed 5000 100]])))
   \<and> sorted (map visual (visualMap_of (allProps [track_of [timed 0 100], track_of [timed 5000 100]])))
   \<and> totalVisualDuration (allProps [track_of [timed 0 100], track_of [timed 5000 100]]) = 260"
proof -
  have wf: "well_formed [track_of [timed 0 100], track_of [timed 5000 100]]"
    by (simp add: well_formed_def allProps_def track_of_def timed_def)
  have t: "totalVisualDuration (allProps [track_of [timed 0 100], track_of [timed 5000 100]]) = 260"
    by (simp add: example_defs)
  from visual_map_invariants [OF wf] wf t show ?thesis by blast
qed

text \<open>
  C8. For every list of tracks, \<open>getPercent 0\<close> is 0: the table always begins with the
  entry whose \<open>real\<close> is 0, so \<open>findIndex\<close> returns index 0.
\<close>

theorem percent_zero: "getPercent (createVisualTimeScale trks) 0 = Inr 0"
proof -
  obtain rest where "visualMap_of (allProps trks) = \<lparr>real' = 0, visual = 0\<rparr> # rest"
    using visualMap_of_first by blast
  then show ?thesis
    unfolding getPercent_unfold by (simp add: getPercent_in_def)
qed

text \<open>
  C9. The builder is deterministic and no hidden state influences its result: called on
  the same list of tracks in any two heaps \<open>h1\<close> and \<open>h2\<close>, whatever objects they
  hold (among them the objects that earlier calls have left), both calls succeed, leave
  every object that was there unchanged (the heap only grows, by the three new objects),
  and return the same \<open>totalDuration\<close> and percent functions that agree at every time,
  also when more objects have been created since.
\<close>

theorem scale_deterministic:
  "\<exists>r1 r2 new1 new2.
     createVisualTimeScale_st trks h1 = Inr (r1, h1 @ new1)
     \<and> createVisualTimeScale_st trks h2 = Inr (r2, h2 @ new2)
     \<and> totalDuration_st r1 = totalDuration_st r2
     \<and> (\<forall>t later1 later2.
           getPercent_st r1 t (h1 @ new1 @ later1) = getPercent_st r2 t (h2 @ new2 @ later2))"
proof -
  define ps where "ps = allProps trks"
  define new where "new = [NumberSet (timePoints ps), NumberArray (sortedPoints ps),
                           MappingArray (visualMap_of ps)]"
  define r where "r = (\<lambda>h::heap. \<lparr>visualMap_ref = length h + 2,
            totalVisualDuration_st = totalVisualDuration ps,
            totalDuration_st = maxRealDuration ps\<rparr>)"
  have b: "createVisualTimeScale_st trks h = Inr (r h, h @ new)" for h
    by (simp add: createVisualTimeScale_st_result r_def new_def ps_def)
  have g: "getPercent_st (r h) t (h @ new @ later)
      = getPercent_in (visualMap_of ps) (totalVisualDuration ps) t" for h t later
    using getPercent_st_result [of h _ _ t _ _ "visualMap_of ps" later]
    by (simp add: r_def new_def)
  have "createVisualTimeScale_st trks h1 = Inr (r h1, h1 @ new)
     \<and> createVisualTimeScale_st trks h2 = Inr (r h2, h2 @ new)
     \<and> totalDuration_st (r h1) = totalDuration_st (r h2)
     \<and> (\<forall>t later1 later2.
           getPercent_st (r h1) t (h1 @ new @ later1) = getPercent_st (r h2) t (h2 @ new @ later2))"
    by (simp add: b g) (simp add: r_def)
  then show ?thesis by blast
qed

text \<open>
  C10. For every group, the scale computed in the HTML export agrees with
  \<open>createVisualTimeScale\<close> on the group's tracks: the same \<open>totalDuration\<close> and
  the same percentage (or the same error value) at every time.
\<close>

theorem html_export_scale_agrees:
  "html_maxRealDuration grp = totalDuration (createVisualTimeScale (tracks grp))
   \<and> html_getPercent grp t = getPercent (createVisualTimeScale (tracks grp)) t"
proof
  show "html_maxRealDuration grp = totalDuration (createVisualTimeScale (tracks grp))"
    by (simp add: html_maxRealDuration_def html_sortedPoints_eq createVisualTimeScale_def
        maxRealDuration_def Let_def)
  show "html_getPercent grp t = getPercent (createVisualTimeScale (tracks grp)) t"
    by (simp add: html_getPercent_eq createVisualTimeScale_def Let_def)
qed

end
